theory Spec2Isabelle
  imports Main "HOL-Library.Word" "HOL-Library.Sublist"
begin

unbundle bit_operations_syntax

section \<open>Values of the package\<close>

subsection \<open>Wait statuses and errors\<close>

text \<open>
  \<open>asyncWait\<close> inspects the error of \<open>cmd.Wait()\<close> with two type assertions:
  \<open>err.(*exec.ExitError)\<close> and \<open>exiterr.Sys().(syscall.WaitStatus)\<close>, and then calls
  \<open>stat.ExitStatus()\<close>. A \<open>syscall.WaitStatus\<close> is a \<open>uint32\<close>; on Linux the low seven
  bits hold the terminating signal (0 when the process exited), and bits 8 to 15 the exit
  code. \<open>ExitStatus\<close> is \<open>-1\<close> unless the process exited.
\<close>

type_synonym WaitStatus = "32 word"

definition Exited :: "WaitStatus \<Rightarrow> bool" where
  "Exited w \<longleftrightarrow> w AND 0x7F = 0"

definition Signaled :: "WaitStatus \<Rightarrow> bool" where
  "Signaled w \<longleftrightarrow> w AND 0x7F \<noteq> 0x7F \<and> w AND 0x7F \<noteq> 0"

definition ExitStatus :: "WaitStatus \<Rightarrow> int" where
  "ExitStatus w = (if \<not> Exited w then - 1 else uint (drop_bit 8 w) AND 0xFF)"

text \<open>
  What \<open>Sys()\<close> of an exit error holds: a wait status, or a value of another dynamic type
  (for which the second type assertion fails).
\<close>

datatype sys_value = SysWaitStatus WaitStatus | SysOther

text \<open>
  The dynamic types of errors the package distinguishes or creates: \<open>*exec.ExitError\<close>,
  a system call's \<open>syscall.Errno\<close>, and an error that is only a message
  (\<open>fmt.Errorf\<close>, \<open>errors.New\<close>, or any other error of the runtime). A Go \<open>error\<close> that
  may be \<open>nil\<close> is a \<open>go_error option\<close>.
\<close>

datatype go_error = ExitError sys_value | Errno nat | ErrorString string

record ExitCodeOrError =
  ExitCode :: int
  Error :: "go_error option"

text \<open>
  Lines 78 to 87 of \<open>asyncWait\<close>: from the error of \<open>cmd.Wait()\<close> to the pair
  \<open>(exitCode, err)\<close> handed to \<open>sendExitCodeOrError\<close>. \<open>exitCode\<close> starts at 0 and
  \<open>err\<close> is reset to \<open>nil\<close> only when both type assertions succeed.
\<close>

fun asyncWait_result :: "go_error option \<Rightarrow> int \<times> go_error option" where
  "asyncWait_result None = (0, None)"
| "asyncWait_result (Some (ExitError (SysWaitStatus stat))) = (ExitStatus stat, None)"
| "asyncWait_result (Some err) = (0, Some err)"

section \<open>The controller and its runtime\<close>

subsection \<open>State\<close>

text \<open>
  The struct \<open>App\<close> with the fields of its \<open>*exec.Cmd\<close> that the package reads or
  writes. Pointers and channels that may be \<open>nil\<close> are options: \<open>cmd_Process\<close> holds
  the pid of \<open>cmd.Process\<close>, \<open>waitCh\<close> the address of the channel, \<open>exitCodeOrError\<close>
  the content of the \<open>atomic.Value\<close> (\<open>None\<close> until the first \<open>Store\<close>). Readers
  and writers given to \<open>Start\<close> are opaque handles.
\<close>

record App =
  cmd_Path :: string
  cmd_Args :: "string list"
  cmd_Env :: "string list option"
  cmd_Setpgid :: bool
  cmd_Stdin :: "nat option"
  cmd_Stdout :: "nat option"
  cmd_Stderr :: "nat option"
  cmd_Process :: "int option"
  waitCh :: "nat option"
  exitCodeOrError :: "ExitCodeOrError option"

text \<open>
  What happens is recorded as events, in order: the system calls of \<open>Kill\<close>, and the
  store, the send and the close of the watcher.
\<close>

datatype event =
    EvGetpgid int
  | EvKill int nat
  | EvProcessKill int
  | EvStore ExitCodeOrError
  | EvSend nat ExitCodeOrError
  | EvClose nat

text \<open>
  The goroutine running \<open>asyncWait\<close>: where it stands, and its stack of deferred
  \<open>close\<close> calls, each with the channel value it was given when the \<open>defer\<close>
  statement ran.
\<close>

datatype wpc =
    AtDefer
  | AtCmdWait
  | AtStore int "go_error option"
  | AtSend ExitCodeOrError
  | AtReturn
  | AtPanic
  | Finished
  | Crashed

record goroutine =
  pc :: wpc
  deferred :: "nat option list"

text \<open>
  The program state around one controller: the controller itself, the channels made so
  far (the address of a channel is its index; the flag says whether it is closed; the
  channels are unbuffered), the watcher goroutine if one was spawned, and the events.
  One place for a watcher is enough: \<open>cmd.Start()\<close> launches a command once, so
  \<open>Start\<close> spawns at most one.
\<close>

record world = App +
  chans :: "bool list"
  watcher :: "goroutine option"
  trace :: "event list"

text \<open>
  The operating system and the Go runtime, as far as the package calls them:
  \<open>os.Environ()\<close>, the path that \<open>exec.Command\<close> resolves a name to, whether the
  launch inside \<open>cmd.Start()\<close> works (the pid, or the error), what \<open>cmd.Wait()\<close>
  returns (\<open>None\<close>: it never returns), \<open>syscall.Getpgid\<close>, \<open>syscall.Kill\<close> and
  \<open>Process.Kill\<close>. \<open>IsLinuxMacOSFreeBSD\<close> is a function of the package defined in
  another file; it is taken as a parameter.
\<close>

record os =
  os_Environ :: "string list"
  os_LookPath :: "string \<Rightarrow> string"
  os_StartProcess :: "go_error + int"
  os_Wait :: "go_error option option"
  os_Getpgid :: "int \<Rightarrow> go_error + int"
  os_Kill :: "int \<Rightarrow> nat \<Rightarrow> go_error option"
  os_ProcessKill :: "int \<Rightarrow> go_error option"
  IsLinuxMacOSFreeBSD :: bool

text \<open>A call either returns, panics, or blocks forever.\<close>

datatype 'a outcome = Returned 'a world | Panics | Blocks

definition SIGKILL :: nat where
  "SIGKILL = 9"

definition log :: "event \<Rightarrow> world \<Rightarrow> world" where
  "log e w = w\<lparr>trace := trace w @ [e]\<rparr>"

definition chan_closed :: "world \<Rightarrow> nat \<Rightarrow> bool" where
  "chan_closed w c \<longleftrightarrow> c < length (chans w) \<and> chans w ! c"

subsection \<open>Construction and environment\<close>

text \<open>
  \<open>NewApp\<close>: \<open>exec.Command(name, args...)\<close> sets \<open>Path\<close> to the resolved name and
  \<open>Args\<close> to the name followed by the arguments; \<open>Setpgid\<close> is set; nothing is
  launched.
\<close>

definition NewApp :: "os \<Rightarrow> string \<Rightarrow> string list \<Rightarrow> world" where
  "NewApp os name args =
     \<lparr>cmd_Path = os_LookPath os name, cmd_Args = name # args, cmd_Env = None,
      cmd_Setpgid = True, cmd_Stdin = None, cmd_Stdout = None, cmd_Stderr = None,
      cmd_Process = None, waitCh = None, exitCodeOrError = None,
      chans = [], watcher = None, trace = []\<rparr>"

text \<open>
  Go's \<open>append(s, xs...)\<close> on a slice that may be \<open>nil\<close>: appending nothing to
  \<open>nil\<close> leaves \<open>nil\<close>.
\<close>

fun go_append :: "string list option \<Rightarrow> string list \<Rightarrow> string list option" where
  "go_append None [] = None"
| "go_append None xs = Some xs"
| "go_append (Some s) xs = Some (s @ xs)"

definition AddEnvironments :: "os \<Rightarrow> string list \<Rightarrow> world \<Rightarrow> world" where
  "AddEnvironments os env app =
     (let app1 = (if cmd_Env app = None then app\<lparr>cmd_Env := Some (os_Environ os)\<rparr> else app)
      in app1\<lparr>cmd_Env := go_append (cmd_Env app1) env\<rparr>)"

subsection \<open>The watcher: \<open>asyncWait\<close> and \<open>sendExitCodeOrError\<close>\<close>

text \<open>
  Running one deferred \<open>close(ch)\<close>: closing a \<open>nil\<close> channel or a closed channel
  panics; otherwise the channel is closed. The result says whether the call panicked.
\<close>

definition run_close :: "nat option \<Rightarrow> world \<Rightarrow> bool \<times> world" where
  "run_close ch w =
     (case ch of
        None \<Rightarrow> (True, w)
      | Some c \<Rightarrow>
          if chan_closed w c \<or> \<not> c < length (chans w) then (True, w)
          else (False, log (EvClose c) (w\<lparr>chans := (chans w)[c := True]\<rparr>)))"

text \<open>
  One step that the watcher goroutine takes on its own, if it can take one.
  \<^item> \<open>AtDefer\<close>: \<open>defer close(app.waitCh)\<close> evaluates \<open>app.waitCh\<close> and pushes the call.
  \<^item> \<open>AtCmdWait\<close>: \<open>cmd.Wait()\<close> returns (if it ever does) and lines 78 to 87 compute
    the pair.
  \<^item> \<open>AtStore\<close>: \<open>app.exitCodeOrError.Store(state)\<close>.
  \<^item> \<open>AtSend\<close>: \<open>app.waitCh <- *state\<close>. A send on a \<open>nil\<close> channel blocks forever, a
    send on a closed channel panics, and a send on an open unbuffered channel waits for a
    receiver (see \<open>rendezvous\<close>).
  \<^item> \<open>AtReturn\<close>, \<open>AtPanic\<close>: the function is left, by return or by panic: the deferred
    calls run, last pushed first; then the goroutine is finished, or the panic ends the
    program.
\<close>

definition watcher_step :: "os \<Rightarrow> world \<Rightarrow> world option" where
  "watcher_step os w =
     (case watcher w of
        None \<Rightarrow> None
      | Some g \<Rightarrow>
          (case pc g of
             AtDefer \<Rightarrow>
               Some (w\<lparr>watcher := Some (g\<lparr>pc := AtCmdWait, deferred := waitCh w # deferred g\<rparr>)\<rparr>)
           | AtCmdWait \<Rightarrow>
               (case os_Wait os of
                  None \<Rightarrow> None
                | Some err \<Rightarrow>
                    Some (w\<lparr>watcher := Some (g\<lparr>pc := AtStore (fst (asyncWait_result err))
                                                            (snd (asyncWait_result err))\<rparr>)\<rparr>))
           | AtStore exitCode err \<Rightarrow>
               (let state = \<lparr>ExitCode = exitCode, Error = err\<rparr>
                in Some (log (EvStore state)
                     (w\<lparr>exitCodeOrError := Some state, watcher := Some (g\<lparr>pc := AtSend state\<rparr>)\<rparr>)))
           | AtSend state \<Rightarrow>
               (case waitCh w of
                  None \<Rightarrow> None
                | Some c \<Rightarrow>
                    if chan_closed w c then Some (w\<lparr>watcher := Some (g\<lparr>pc := AtPanic\<rparr>)\<rparr>)
                    else None)
           | AtReturn \<Rightarrow>
               (case deferred g of
                  [] \<Rightarrow> Some (w\<lparr>watcher := Some (g\<lparr>pc := Finished\<rparr>)\<rparr>)
                | ch # ds \<Rightarrow>
                    (case run_close ch w of
                       (panicked, w') \<Rightarrow>
                         Some (w'\<lparr>watcher :=
                           Some (g\<lparr>pc := (if panicked then AtPanic else AtReturn), deferred := ds\<rparr>)\<rparr>)))
           | AtPanic \<Rightarrow>
               (case deferred g of
                  [] \<Rightarrow> Some (w\<lparr>watcher := Some (g\<lparr>pc := Crashed\<rparr>)\<rparr>)
                | ch # ds \<Rightarrow>
                    (case run_close ch w of
                       (panicked, w') \<Rightarrow>
                         Some (w'\<lparr>watcher := Some (g\<lparr>pc := AtPanic, deferred := ds\<rparr>)\<rparr>)))
           | Finished \<Rightarrow> None
           | Crashed \<Rightarrow> None))"

text \<open>
  The send meets a receive: when a goroutine receives on the open channel \<open>c\<close> and the
  watcher stands at its send on that same channel, the value passes and the watcher goes
  on to its return.
\<close>

definition rendezvous :: "nat \<Rightarrow> world \<Rightarrow> (ExitCodeOrError \<times> world) option" where
  "rendezvous c w =
     (case watcher w of
        None \<Rightarrow> None
      | Some g \<Rightarrow>
          (case pc g of
             AtSend state \<Rightarrow>
               if waitCh w = Some c \<and> \<not> chan_closed w c
               then Some (state, log (EvSend c state) (w\<lparr>watcher := Some (g\<lparr>pc := AtReturn\<rparr>)\<rparr>))
               else None
           | _ \<Rightarrow> None))"

text \<open>How far the watcher is from its end: every step brings it closer.\<close>

fun pc_rank :: "wpc \<Rightarrow> nat" where
  "pc_rank AtDefer = 6"
| "pc_rank AtCmdWait = 5"
| "pc_rank (AtStore _ _) = 4"
| "pc_rank (AtSend _) = 3"
| "pc_rank AtReturn = 2"
| "pc_rank AtPanic = 1"
| "pc_rank Finished = 0"
| "pc_rank Crashed = 0"

definition watcher_rank :: "world \<Rightarrow> nat" where
  "watcher_rank w =
     (case watcher w of None \<Rightarrow> 0 | Some g \<Rightarrow> 2 * pc_rank (pc g) + length (deferred g))"

subsection \<open>Receiving: \<open>Wait\<close>\<close>

text \<open>
  \<open>st, ok := <-ch\<close> on the channel \<open>c\<close>, by a goroutine other than the watcher. On a
  closed channel the receive returns at once with \<open>ok = false\<close>. Otherwise it takes the
  value of a sender blocked on \<open>c\<close>; if there is none, the receiver is blocked, and only
  the watcher can move: when the watcher cannot, the receive never returns.
\<close>

datatype recv_result = RecvValue ExitCodeOrError world | RecvClosed world | RecvBlocks

function recv_loop :: "os \<Rightarrow> nat \<Rightarrow> world \<Rightarrow> recv_result" where
  "recv_loop os c w =
     (if chan_closed w c then RecvClosed w
      else case rendezvous c w of
             Some (st, w') \<Rightarrow> RecvValue st w'
           | None \<Rightarrow>
               (case watcher_step os w of
                  None \<Rightarrow> RecvBlocks
                | Some w' \<Rightarrow> recv_loop os c w'))"
  by pat_completeness auto
termination
  by (relation "measure (\<lambda>(os, c, w). watcher_rank w)")
     (auto simp: watcher_step_def watcher_rank_def run_close_def log_def Let_def
      split: option.splits wpc.splits list.splits if_splits prod.splits)

declare recv_loop.simps [simp del]

text \<open>
  \<open>Wait\<close>: a receive on \<open>app.waitCh\<close>; a receive on a \<open>nil\<close> channel blocks forever.
\<close>

definition Wait :: "os \<Rightarrow> world \<Rightarrow> ExitCodeOrError outcome" where
  "Wait os w =
     (case waitCh w of
        None \<Rightarrow> Blocks
      | Some c \<Rightarrow>
          (case recv_loop os c w of
             RecvValue st w' \<Rightarrow> Returned st w'
           | RecvClosed w' \<Rightarrow>
               Returned \<lparr>ExitCode = 0, Error = Some (ErrorString ''Exited already'')\<rparr> w'
           | RecvBlocks \<Rightarrow> Blocks))"

subsection \<open>\<open>Start\<close>, \<open>Run\<close>, the cached result, \<open>Kill\<close>, \<open>CheckIsInstalled\<close>\<close>

text \<open>
  \<open>cmd.Start()\<close> of \<open>os/exec\<close>: a command that already has a process is refused;
  otherwise the launch succeeds and sets \<open>cmd.Process\<close>, or fails and leaves it \<open>nil\<close>.
\<close>

definition cmd_Start :: "os \<Rightarrow> world \<Rightarrow> go_error option \<times> world" where
  "cmd_Start os w =
     (if cmd_Process w \<noteq> None then (Some (ErrorString ''exec: already started''), w)
      else case os_StartProcess os of
             Inl err \<Rightarrow> (Some err, w)
           | Inr pid \<Rightarrow> (None, w\<lparr>cmd_Process := Some pid\<rparr>))"

text \<open>Lines 95 to 103 of \<open>Start\<close>: a stream that is not \<open>nil\<close> is wired to the command.\<close>

definition wire :: "nat option \<Rightarrow> nat option \<Rightarrow> nat option \<Rightarrow> world \<Rightarrow> world" where
  "wire stdin stdout stderr w =
     (let w1 = (if stdin \<noteq> None then w\<lparr>cmd_Stdin := stdin\<rparr> else w);
          w2 = (if stdout \<noteq> None then w1\<lparr>cmd_Stdout := stdout\<rparr> else w1)
      in (if stderr \<noteq> None then w2\<lparr>cmd_Stderr := stderr\<rparr> else w2))"

text \<open>
  \<open>Start\<close> returns the channel and the error. After a launch, \<open>make\<close> allocates the
  next channel, open, and \<open>go app.asyncWait()\<close> spawns the watcher at its first
  statement.
\<close>

definition Start ::
  "os \<Rightarrow> nat option \<Rightarrow> nat option \<Rightarrow> nat option \<Rightarrow> world
     \<Rightarrow> (nat option \<times> go_error option) \<times> world" where
  "Start os stdin stdout stderr w =
     (case cmd_Start os (wire stdin stdout stderr w) of
        (Some err, w1) \<Rightarrow> ((None, Some err), w1)
      | (None, w1) \<Rightarrow>
          (let w2 = w1\<lparr>waitCh := Some (length (chans w1)), chans := chans w1 @ [False]\<rparr>;
               w3 = w2\<lparr>watcher := Some \<lparr>pc = AtDefer, deferred = []\<rparr>\<rparr>
           in ((waitCh w3, None), w3)))"

definition Run ::
  "os \<Rightarrow> nat option \<Rightarrow> nat option \<Rightarrow> nat option \<Rightarrow> world \<Rightarrow> ExitCodeOrError outcome" where
  "Run os stdin stdout stderr w =
     (case Start os stdin stdout stderr w of
        ((_, Some err), w') \<Rightarrow> Returned \<lparr>ExitCode = 0, Error = Some err\<rparr> w'
      | ((_, None), w') \<Rightarrow> Wait os w')"

text \<open>
  The method \<open>ExitCodeOrError()\<close>: \<open>Load\<close> of an \<open>atomic.Value\<close> never stored to is the
  \<open>nil\<close> interface, on which the type assertion \<open>ref.(*ExitCodeOrError)\<close> panics.
\<close>

definition App_ExitCodeOrError :: "world \<Rightarrow> ExitCodeOrError outcome" where
  "App_ExitCodeOrError w =
     (case exitCodeOrError w of
        None \<Rightarrow> Panics
      | Some st \<Rightarrow> Returned st w)"

text \<open>
  \<open>Kill\<close>. Reading \<open>app.cmd.Process.Pid\<close> through a \<open>nil\<close> \<open>Process\<close> panics, and so
  does \<open>Process.Kill()\<close> on a \<open>nil\<close> receiver, which reads the fields of the process.
  Each system call is recorded when it is made. \<open>Kill_Wait\<close> is the end of the function,
  lines 168 to 170: \<open>state := app.Wait()\<close> and \<open>return state.Error\<close>.
\<close>

definition Kill_Wait :: "os \<Rightarrow> world \<Rightarrow> go_error option outcome" where
  "Kill_Wait os w =
     (case Wait os w of
        Returned state w' \<Rightarrow> Returned (Error state) w'
      | Panics \<Rightarrow> Panics
      | Blocks \<Rightarrow> Blocks)"

definition Kill :: "os \<Rightarrow> world \<Rightarrow> go_error option outcome" where
  "Kill os w =
     (if IsLinuxMacOSFreeBSD os then
        (case cmd_Process w of
           None \<Rightarrow> Panics
         | Some pid \<Rightarrow>
             (case os_Getpgid os pid of
                Inl err \<Rightarrow> Returned (Some err) (log (EvGetpgid pid) w)
              | Inr pgid \<Rightarrow>
                  (case os_Kill os (- pgid) SIGKILL of
                     Some err \<Rightarrow>
                       Returned (Some err)
                         (log (EvKill (- pgid) SIGKILL) (log (EvGetpgid pid) w))
                   | None \<Rightarrow>
                       Kill_Wait os (log (EvKill (- pgid) SIGKILL) (log (EvGetpgid pid) w)))))
      else
        (case cmd_Process w of
           None \<Rightarrow> Panics
         | Some pid \<Rightarrow>
             (case os_ProcessKill os pid of
                Some err \<Rightarrow> Returned (Some err) (log (EvProcessKill pid) w)
              | None \<Rightarrow> Kill_Wait os (log (EvProcessKill pid) w))))"



section \<open>Histories of the program\<close>

text \<open>The record that \<open>sendExitCodeOrError\<close> builds from the error of \<open>cmd.Wait()\<close>.\<close>

definition published :: "go_error option \<Rightarrow> ExitCodeOrError" where
  "published err =
     \<lparr>ExitCode = fst (asyncWait_result err), Error = snd (asyncWait_result err)\<rparr>"

fun value_of :: "'a outcome \<Rightarrow> 'a option" where
  "value_of (Returned v w) = Some v"
| "value_of Panics = None"
| "value_of Blocks = None"

fun world_of :: "'a outcome \<Rightarrow> world option" where
  "world_of (Returned v w) = Some w"
| "world_of Panics = None"
| "world_of Blocks = None"

text \<open>
  The client calls the methods of the controller in some order, from one or several
  goroutines, and the watcher takes its steps in between, whenever it can. A call that
  panics or never returns ends the history.
\<close>

datatype action =
    ActWatcher
  | ActAddEnvironments "string list"
  | ActStart "nat option" "nat option" "nat option"
  | ActRun "nat option" "nat option" "nat option"
  | ActWait
  | ActKill

fun perform :: "os \<Rightarrow> action \<Rightarrow> world \<Rightarrow> world option" where
  "perform os ActWatcher w = watcher_step os w"
| "perform os (ActAddEnvironments env) w = Some (AddEnvironments os env w)"
| "perform os (ActStart stdin stdout stderr) w = Some (snd (Start os stdin stdout stderr w))"
| "perform os (ActRun stdin stdout stderr) w = world_of (Run os stdin stdout stderr w)"
| "perform os ActWait w = world_of (Wait os w)"
| "perform os ActKill w = world_of (Kill os w)"

fun exec :: "os \<Rightarrow> action list \<Rightarrow> world \<Rightarrow> world option" where
  "exec os [] w = Some w"
| "exec os (a # as) w = (case perform os a w of None \<Rightarrow> None | Some w' \<Rightarrow> exec os as w')"

text \<open>The events of the watcher among all events, and the events a watcher is to leave.\<close>

fun is_watcher_event :: "event \<Rightarrow> bool" where
  "is_watcher_event (EvStore _) = True"
| "is_watcher_event (EvSend _ _) = True"
| "is_watcher_event (EvClose _) = True"
| "is_watcher_event _ = False"

definition watcher_events :: "world \<Rightarrow> event list" where
  "watcher_events w = filter is_watcher_event (trace w)"

definition expected_events :: "os \<Rightarrow> world \<Rightarrow> event list" where
  "expected_events os w =
     (case (os_Wait os, waitCh w) of
        (Some err, Some c) \<Rightarrow> [EvStore (published err), EvSend c (published err), EvClose c]
      | _ \<Rightarrow> [])"

text \<open>
  What holds of every state a history reaches: before a successful \<open>Start\<close> there is no
  process, channel, watcher or result; after it there is the one channel, and the
  position of the watcher determines the cached result, the deferred call, whether the
  channel is closed, and the events so far.
\<close>

definition watcher_inv :: "os \<Rightarrow> world \<Rightarrow> bool" where
  "watcher_inv os w =
     (case watcher w of
        None \<Rightarrow>
          cmd_Process w = None \<and> waitCh w = None \<and> chans w = [] \<and>
          exitCodeOrError w = None \<and> watcher_events w = []
      | Some g \<Rightarrow>
          cmd_Process w \<noteq> None \<and> waitCh w = Some 0 \<and>
          (case pc g of
             AtDefer \<Rightarrow>
               deferred g = [] \<and> chans w = [False] \<and> exitCodeOrError w = None \<and>
               watcher_events w = []
           | AtCmdWait \<Rightarrow>
               deferred g = [Some 0] \<and> chans w = [False] \<and> exitCodeOrError w = None \<and>
               watcher_events w = []
           | AtStore exitCode err \<Rightarrow>
               deferred g = [Some 0] \<and> chans w = [False] \<and> exitCodeOrError w = None \<and>
               watcher_events w = [] \<and>
               map_option published (os_Wait os) = Some \<lparr>ExitCode = exitCode, Error = err\<rparr>
           | AtSend st \<Rightarrow>
               deferred g = [Some 0] \<and> chans w = [False] \<and> exitCodeOrError w = Some st \<and>
               watcher_events w = [EvStore st] \<and>
               map_option published (os_Wait os) = Some st
           | AtReturn \<Rightarrow>
               exitCodeOrError w = map_option published (os_Wait os) \<and>
               (deferred g = [Some 0] \<and> chans w = [False] \<and>
                  watcher_events w = take 2 (expected_events os w) \<or>
                deferred g = [] \<and> chans w = [True] \<and>
                  watcher_events w = expected_events os w) \<and>
               os_Wait os \<noteq> None
           | AtPanic \<Rightarrow> False
           | Finished \<Rightarrow>
               exitCodeOrError w = map_option published (os_Wait os) \<and>
               deferred g = [] \<and> chans w = [True] \<and>
               watcher_events w = expected_events os w \<and> os_Wait os \<noteq> None
           | Crashed \<Rightarrow> False))"

section \<open>Example systems\<close>

text \<open>
  A system in which the launch and the wait end as given, every process is the leader of
  its own group, and signals are delivered.
\<close>

definition os_example :: "go_error + int \<Rightarrow> go_error option option \<Rightarrow> os" where
  "os_example launch wait =
     \<lparr>os_Environ = [''HOME=/root''], os_LookPath = (\<lambda>name. ''/usr/bin/'' @ name),
      os_StartProcess = launch, os_Wait = wait, os_Getpgid = (\<lambda>pid. Inr pid),
      os_Kill = (\<lambda>_ _. None), os_ProcessKill = (\<lambda>_. None), IsLinuxMacOSFreeBSD = True\<rparr>"

text \<open>
  A process ended by \<open>SIGKILL\<close> (wait status 9), a process that exits with code 7 (wait
  status \<open>0x700\<close>), and a program that cannot be launched.
\<close>

definition os_killed :: os where
  "os_killed = os_example (Inr 4242) (Some (Some (ExitError (SysWaitStatus 9))))"

definition os_exit7 :: os where
  "os_exit7 = os_example (Inr 4242) (Some (Some (ExitError (SysWaitStatus 0x700))))"

definition os_nolaunch :: os where
  "os_nolaunch = os_example (Inl (ErrorString ''exec: no such file'')) None"

text \<open>The result of \<open>Wait\<close> on a closed channel.\<close>

definition already_exited :: ExitCodeOrError where
  "already_exited = \<lparr>ExitCode = 0, Error = Some (ErrorString ''Exited already'')\<rparr>"

section \<open>Properties of the runtime\<close>

subsection \<open>The invariant of histories\<close>

lemma inv_watcher_step:
  assumes "watcher_inv os w" and "watcher_step os w = Some w'"
  shows "watcher_inv os w'"
proof (cases "watcher w")
  case None
  with assms show ?thesis by (simp add: watcher_step_def)
next
  case (Some g)
  show ?thesis
  proof (cases "pc g")
    case AtDefer
    with Some assms show ?thesis
      by (auto simp: watcher_inv_def watcher_step_def watcher_events_def)
  next
    case AtCmdWait
    with Some assms show ?thesis
      by (auto simp: watcher_inv_def watcher_step_def watcher_events_def published_def
          split: option.splits)
  next
    case (AtStore code err)
    with Some assms show ?thesis
      by (auto simp: watcher_inv_def watcher_step_def watcher_events_def log_def Let_def)
  next
    case (AtSend st)
    with Some assms show ?thesis
      by (auto simp: watcher_inv_def watcher_step_def chan_closed_def split: if_splits)
  next
    case AtReturn
    with Some assms show ?thesis
      by (auto simp: watcher_inv_def watcher_step_def run_close_def chan_closed_def
          watcher_events_def expected_events_def log_def split: list.splits if_splits)
  next
    case AtPanic
    with Some assms show ?thesis by (simp add: watcher_inv_def)
  next
    case Finished
    with Some assms show ?thesis by (simp add: watcher_step_def)
  next
    case Crashed
    with Some assms show ?thesis by (simp add: watcher_step_def)
  qed
qed

lemma inv_rendezvous:
  assumes "watcher_inv os w" and "rendezvous c w = Some (st, w')"
  shows "watcher_inv os w'"
proof -
  from assms(2) obtain g where g: "watcher w = Some g" "pc g = AtSend st" "waitCh w = Some c"
    and w': "w' = log (EvSend c st) (w\<lparr>watcher := Some (g\<lparr>pc := AtReturn\<rparr>)\<rparr>)"
    by (auto simp: rendezvous_def split: option.splits wpc.splits if_splits)
  with assms(1) show ?thesis
    by (auto simp: watcher_inv_def watcher_events_def expected_events_def log_def)
qed


lemma inv_recv_loop:
  "watcher_inv os w \<Longrightarrow>
     (case recv_loop os c w of
        RecvValue st w' \<Rightarrow> watcher_inv os w'
      | RecvClosed w' \<Rightarrow> watcher_inv os w'
      | RecvBlocks \<Rightarrow> True)"
proof (induction os c w rule: recv_loop.induct)
  case (1 os c w)
  show ?case
  proof (cases "chan_closed w c")
    case True
    with "1.prems" show ?thesis by (subst recv_loop.simps) simp
  next
    case not_closed: False
    show ?thesis
    proof (cases "rendezvous c w")
      case (Some p)
      obtain st w' where p: "p = (st, w')" by (cases p)
      with Some "1.prems" have "watcher_inv os w'" by (auto dest: inv_rendezvous)
      with not_closed Some p show ?thesis by (subst recv_loop.simps) simp
    next
      case None
      show ?thesis
      proof (cases "watcher_step os w")
        case blocked: None
        with not_closed None show ?thesis by (subst recv_loop.simps) simp
      next
        case (Some w1)
        with "1.prems" have "watcher_inv os w1" by (rule inv_watcher_step)
        with "1.IH" [OF not_closed None Some] not_closed None Some show ?thesis
          by (subst recv_loop.simps) simp
      qed
    qed
  qed
qed

lemma inv_Wait:
  assumes "watcher_inv os w" and "Wait os w = Returned st w'"
  shows "watcher_inv os w'"
proof -
  from assms(2) obtain c where c: "waitCh w = Some c"
    by (auto simp: Wait_def split: option.splits)
  from assms(2) c have "recv_loop os c w = RecvValue st w' \<or> recv_loop os c w = RecvClosed w'"
    by (auto simp: Wait_def split: recv_result.splits)
  with inv_recv_loop [OF assms(1), of c] show ?thesis by auto
qed

lemma watcher_events_log:
  "watcher_events (log e w) =
     (if is_watcher_event e then watcher_events w @ [e] else watcher_events w)"
  by (simp add: watcher_events_def log_def)

lemma inv_log:
  assumes "\<not> is_watcher_event e" and "watcher_inv os w"
  shows "watcher_inv os (log e w)"
proof -
  have ev: "watcher_events (log e w) = watcher_events w"
    using assms(1) by (simp add: watcher_events_log)
  have ex: "expected_events os (log e w) = expected_events os w"
    by (simp add: expected_events_def log_def)
  have fields: "watcher (log e w) = watcher w" "cmd_Process (log e w) = cmd_Process w"
    "waitCh (log e w) = waitCh w" "chans (log e w) = chans w"
    "exitCodeOrError (log e w) = exitCodeOrError w"
    by (simp_all add: log_def)
  from assms(2) show ?thesis
    unfolding watcher_inv_def ev ex fields .
qed

lemma inv_Kill:
  assumes "watcher_inv os w" and "Kill os w = Returned err w'"
  shows "watcher_inv os w'"
proof -
  have l1: "\<And>pid. watcher_inv os (log (EvGetpgid pid) w)"
    using assms(1) by (simp add: inv_log)
  have l2: "\<And>pid t s. watcher_inv os (log (EvKill t s) (log (EvGetpgid pid) w))"
    using l1 by (simp add: inv_log)
  have l3: "\<And>pid. watcher_inv os (log (EvProcessKill pid) w)"
    using assms(1) by (simp add: inv_log)
  from assms(2) show ?thesis
    unfolding Kill_def Kill_Wait_def
    by (auto split: if_splits option.splits sum.splits outcome.splits
        intro: l1 l2 l3 inv_Wait [OF l2] inv_Wait [OF l3])
qed

lemma inv_cong:
  assumes "watcher w' = watcher w" and "cmd_Process w' = cmd_Process w"
    and "waitCh w' = waitCh w" and "chans w' = chans w"
    and "exitCodeOrError w' = exitCodeOrError w" and "trace w' = trace w"
  shows "watcher_inv os w' = watcher_inv os w"
  unfolding watcher_inv_def watcher_events_def expected_events_def assms by (rule refl)

lemma inv_wire: "watcher_inv os (wire stdin stdout stderr w) = watcher_inv os w"
  by (rule inv_cong) (simp_all add: wire_def Let_def)

lemma inv_Start:
  assumes "watcher_inv os w"
  shows "watcher_inv os (snd (Start os stdin stdout stderr w))"
proof -
  let ?w1 = "wire stdin stdout stderr w"
  have w1: "watcher_inv os ?w1" using assms by (simp add: inv_wire)
  show ?thesis
  proof (cases "fst (cmd_Start os ?w1)")
    case (Some err)
    then have "snd (Start os stdin stdout stderr w) = ?w1"
      by (auto simp: Start_def cmd_Start_def split: if_splits sum.splits)
    with w1 show ?thesis by simp
  next
    case None
    then obtain pid where pid: "cmd_Process ?w1 = None" "os_StartProcess os = Inr pid"
      by (auto simp: cmd_Start_def split: if_splits sum.splits)
    with w1 have fresh: "watcher ?w1 = None" "chans ?w1 = []" "exitCodeOrError ?w1 = None"
      "watcher_events ?w1 = []"
      by (auto simp: watcher_inv_def split: option.splits)
    have "snd (Start os stdin stdout stderr w) =
        ?w1\<lparr>cmd_Process := Some pid, waitCh := Some 0, chans := [False],
            watcher := Some \<lparr>pc = AtDefer, deferred = []\<rparr>\<rparr>"
      using pid fresh by (simp add: Start_def cmd_Start_def Let_def)
    with fresh show ?thesis
      by (simp add: watcher_inv_def watcher_events_def)
  qed
qed

lemma inv_Run:
  assumes "watcher_inv os w" and "Run os stdin stdout stderr w = Returned st w'"
  shows "watcher_inv os w'"
proof -
  obtain ch err w1 where s: "Start os stdin stdout stderr w = ((ch, err), w1)"
    by (metis surj_pair)
  with inv_Start [OF assms(1), of stdin stdout stderr] have w1: "watcher_inv os w1" by simp
  show ?thesis
  proof (cases err)
    case None
    with assms(2) s have "Wait os w1 = Returned st w'" by (simp add: Run_def)
    with w1 show ?thesis by (rule inv_Wait)
  next
    case (Some e)
    with assms(2) s have "w' = w1" by (simp add: Run_def)
    with w1 show ?thesis by simp
  qed
qed

lemma inv_AddEnvironments:
  "watcher_inv os w \<Longrightarrow> watcher_inv os (AddEnvironments os env w)"
  by (subst inv_cong [of _ w]) (simp_all add: AddEnvironments_def Let_def)

lemma inv_NewApp: "watcher_inv os (NewApp os name args)"
  by (simp add: NewApp_def watcher_inv_def watcher_events_def)

lemma world_of_Some: "world_of r = Some w' \<Longrightarrow> \<exists>v. r = Returned v w'"
  by (cases r) auto

lemma inv_perform:
  assumes "watcher_inv os w" and "perform os a w = Some w'"
  shows "watcher_inv os w'"
proof (cases a)
  case ActWatcher
  with assms show ?thesis by (auto intro: inv_watcher_step)
next
  case (ActAddEnvironments env)
  with assms show ?thesis by (auto intro: inv_AddEnvironments)
next
  case (ActStart i out e)
  with assms show ?thesis by (auto intro: inv_Start)
next
  case (ActRun i out e)
  with assms show ?thesis by (auto dest!: world_of_Some intro: inv_Run)
next
  case ActWait
  with assms show ?thesis by (auto dest!: world_of_Some intro: inv_Wait)
next
  case ActKill
  with assms show ?thesis by (auto dest!: world_of_Some intro: inv_Kill)
qed

lemma inv_exec: "watcher_inv os w \<Longrightarrow> exec os acts w = Some w' \<Longrightarrow> watcher_inv os w'"
proof (induction acts arbitrary: w)
  case Nil
  then show ?case by simp
next
  case (Cons a acts)
  then show ?case by (auto split: option.splits dest: inv_perform)
qed

subsection \<open>Wait statuses\<close>

lemma ExitStatus_range: "Exited w \<Longrightarrow> 0 \<le> ExitStatus w \<and> ExitStatus w \<le> 255"
  unfolding ExitStatus_def by simp

lemma ExitStatus_not_exited: "\<not> Exited w \<Longrightarrow> ExitStatus w = - 1"
  unfolding ExitStatus_def by simp

lemma asyncWait_result_other:
  "(\<forall>stat. err \<noteq> ExitError (SysWaitStatus stat)) \<Longrightarrow> asyncWait_result (Some err) = (0, Some err)"
  by (cases "Some err" rule: asyncWait_result.cases) auto

subsection \<open>Receiving from the watcher\<close>

lemma recv_at_Send:
  assumes "watcher w = Some g" and "pc g = AtSend st" and "waitCh w = Some c"
    and "\<not> chan_closed w c"
  shows "recv_loop os c w =
           RecvValue st (w\<lparr>watcher := Some (g\<lparr>pc := AtReturn\<rparr>), trace := trace w @ [EvSend c st]\<rparr>)"
  using assms by (subst recv_loop.simps) (simp add: rendezvous_def log_def)

lemma recv_at_Store:
  assumes "watcher w = Some g" and "pc g = AtStore code err" and "waitCh w = Some c"
    and "\<not> chan_closed w c" and "st = \<lparr>ExitCode = code, Error = err\<rparr>"
  shows "recv_loop os c w =
           RecvValue st
             (w\<lparr>exitCodeOrError := Some st, watcher := Some (g\<lparr>pc := AtReturn\<rparr>),
                trace := trace w @ [EvStore st, EvSend c st]\<rparr>)"
proof -
  let ?w1 = "w\<lparr>exitCodeOrError := Some st, watcher := Some (g\<lparr>pc := AtSend st\<rparr>),
                trace := trace w @ [EvStore st]\<rparr>"
  have step: "watcher_step os w = Some ?w1"
    using assms by (simp add: watcher_step_def log_def Let_def)
  have "recv_loop os c w = recv_loop os c ?w1"
    using assms step by (subst recv_loop.simps) (simp add: rendezvous_def)
  also have "\<dots> = RecvValue st (?w1\<lparr>watcher := Some (g\<lparr>pc := AtSend st, pc := AtReturn\<rparr>),
                trace := trace ?w1 @ [EvSend c st]\<rparr>)"
    using assms by (intro recv_at_Send) (simp_all add: chan_closed_def)
  finally show ?thesis by simp
qed

lemma recv_at_CmdWait:
  assumes "watcher w = Some g" and "pc g = AtCmdWait" and "waitCh w = Some c"
    and "\<not> chan_closed w c" and "os_Wait os = Some r"
  shows "recv_loop os c w =
           RecvValue (published r)
             (w\<lparr>exitCodeOrError := Some (published r),
                watcher := Some (g\<lparr>pc := AtReturn\<rparr>),
                trace := trace w @ [EvStore (published r), EvSend c (published r)]\<rparr>)"
proof -
  let ?g1 = "g\<lparr>pc := AtStore (fst (asyncWait_result r)) (snd (asyncWait_result r))\<rparr>"
  let ?w1 = "w\<lparr>watcher := Some ?g1\<rparr>"
  have step: "watcher_step os w = Some ?w1"
    using assms by (simp add: watcher_step_def)
  have "recv_loop os c w = recv_loop os c ?w1"
    using assms step by (subst recv_loop.simps) (simp add: rendezvous_def)
  also have "\<dots> = RecvValue (published r)
             (?w1\<lparr>exitCodeOrError := Some (published r), watcher := Some (?g1\<lparr>pc := AtReturn\<rparr>),
                trace := trace ?w1 @ [EvStore (published r), EvSend c (published r)]\<rparr>)"
    using assms by (intro recv_at_Store) (simp_all add: chan_closed_def published_def)
  finally show ?thesis by simp
qed

lemma recv_at_Defer:
  assumes "watcher w = Some g" and "pc g = AtDefer" and "waitCh w = Some c"
    and "\<not> chan_closed w c" and "os_Wait os = Some r"
  shows "recv_loop os c w =
           RecvValue (published r)
             (w\<lparr>exitCodeOrError := Some (published r),
                watcher := Some (g\<lparr>pc := AtReturn, deferred := Some c # deferred g\<rparr>),
                trace := trace w @ [EvStore (published r), EvSend c (published r)]\<rparr>)"
proof -
  let ?g1 = "g\<lparr>pc := AtCmdWait, deferred := Some c # deferred g\<rparr>"
  let ?w1 = "w\<lparr>watcher := Some ?g1\<rparr>"
  have step: "watcher_step os w = Some ?w1"
    using assms by (simp add: watcher_step_def)
  have "recv_loop os c w = recv_loop os c ?w1"
    using assms step by (subst recv_loop.simps) (simp add: rendezvous_def)
  also have "\<dots> = RecvValue (published r)
             (?w1\<lparr>exitCodeOrError := Some (published r), watcher := Some (?g1\<lparr>pc := AtReturn\<rparr>),
                trace := trace ?w1 @ [EvStore (published r), EvSend c (published r)]\<rparr>)"
    using assms by (intro recv_at_CmdWait) (simp_all add: chan_closed_def)
  finally show ?thesis by simp
qed

lemma Wait_at_start:
  assumes "watcher w = Some g" and "pc g = AtDefer \<or> pc g = AtCmdWait" and "waitCh w = Some c"
    and "\<not> chan_closed w c" and "os_Wait os = Some r"
  shows "value_of (Wait os w) = Some (published r)"
    and "map_option exitCodeOrError (world_of (Wait os w)) = Some (Some (published r))"
  using assms by (auto simp: Wait_def recv_at_Defer recv_at_CmdWait)

lemma after_send:
  assumes "watcher_inv os w" and "EvSend c st \<in> set (trace w)"
  shows "\<exists>g. watcher w = Some g \<and> waitCh w = Some 0 \<and>
           (pc g = AtReturn \<and> deferred g = [Some 0] \<and> chans w = [False] \<or> chans w = [True])"
proof -
  from assms(2) have ev: "EvSend c st \<in> set (watcher_events w)"
    by (simp add: watcher_events_def)
  from assms(1) ev show ?thesis
    by (cases "watcher w"; cases "pc (the (watcher w))") (auto simp: watcher_inv_def)
qed

lemma Wait_closed:
  assumes "waitCh w = Some c" and "chan_closed w c"
  shows "Wait os w = Returned already_exited w"
  using assms by (simp add: Wait_def already_exited_def recv_loop.simps [of os c w])

lemma Wait_close_pending:
  assumes "watcher w = Some g" and "pc g = AtReturn" and "deferred g = Some c # ds"
    and "waitCh w = Some c" and "c < length (chans w)" and "\<not> chans w ! c"
  shows "Wait os w = Returned already_exited
           (log (EvClose c) (w\<lparr>chans := (chans w)[c := True]\<rparr>)
              \<lparr>watcher := Some (g\<lparr>pc := AtReturn, deferred := ds\<rparr>)\<rparr>)"
proof -
  let ?w1 = "(log (EvClose c) (w\<lparr>chans := (chans w)[c := True]\<rparr>))
              \<lparr>watcher := Some (g\<lparr>pc := AtReturn, deferred := ds\<rparr>)\<rparr>"
  have step: "watcher_step os w = Some ?w1"
    using assms by (simp add: watcher_step_def run_close_def chan_closed_def)
  have closed: "chan_closed ?w1 c"
    using assms by (simp add: chan_closed_def log_def)
  have "recv_loop os c w = recv_loop os c ?w1"
    using assms step by (subst recv_loop.simps) (simp add: rendezvous_def chan_closed_def)
  also have "\<dots> = RecvClosed ?w1"
    using closed by (subst recv_loop.simps) simp
  finally show ?thesis
    using assms by (simp add: Wait_def already_exited_def)
qed

subsection \<open>The cached result and the process handle\<close>

lemma not_stored:
  assumes "watcher_inv os w" and "\<forall>st. EvStore st \<notin> set (trace w)"
  shows "exitCodeOrError w = None"
proof -
  from assms(2) have ev: "\<forall>st. EvStore st \<notin> set (watcher_events w)"
    by (simp add: watcher_events_def)
  from assms(1) ev show ?thesis
    by (cases "watcher w"; cases "pc (the (watcher w))")
       (auto simp: watcher_inv_def expected_events_def split: option.splits)
qed

lemma no_process:
  assumes "watcher_inv os w"
  shows "cmd_Process w = None \<longleftrightarrow> watcher w = None"
  using assms by (cases "watcher w") (auto simp: watcher_inv_def)

lemma Kill_nil: "cmd_Process w = None \<Longrightarrow> Kill os w = Panics"
  by (simp add: Kill_def)

subsection \<open>\<open>Start\<close> and \<open>Run\<close>\<close>

lemma cmd_Start_fails:
  "fst (cmd_Start os w) = Some err \<Longrightarrow> snd (cmd_Start os w) = w"
  by (auto simp: cmd_Start_def split: if_splits sum.splits)

lemma cmd_Start_launches:
  "fst (cmd_Start os w) = None \<Longrightarrow>
     \<exists>pid. cmd_Process w = None \<and> os_StartProcess os = Inr pid \<and>
       snd (cmd_Start os w) = w\<lparr>cmd_Process := Some pid\<rparr>"
  by (auto simp: cmd_Start_def split: if_splits sum.splits)

lemma wire_fields:
  "waitCh (wire stdin stdout stderr w) = waitCh w"
  "chans (wire stdin stdout stderr w) = chans w"
  "watcher (wire stdin stdout stderr w) = watcher w"
  "cmd_Process (wire stdin stdout stderr w) = cmd_Process w"
  "exitCodeOrError (wire stdin stdout stderr w) = exitCodeOrError w"
  "trace (wire stdin stdout stderr w) = trace w"
  "cmd_Env (wire stdin stdout stderr w) = cmd_Env w"
  by (simp_all add: wire_def Let_def)

lemma Start_fails:
  assumes "fst (cmd_Start os (wire stdin stdout stderr w)) = Some err"
  shows "Start os stdin stdout stderr w = ((None, Some err), wire stdin stdout stderr w)"
  using assms cmd_Start_fails [OF assms]
  by (cases "cmd_Start os (wire stdin stdout stderr w)") (simp add: Start_def)

lemma Start_launches:
  assumes "fst (cmd_Start os (wire stdin stdout stderr w)) = None"
  shows "\<exists>pid. cmd_Process w = None \<and> os_StartProcess os = Inr pid \<and>
           Start os stdin stdout stderr w =
             ((Some (length (chans w)), None),
              (wire stdin stdout stderr w)
                \<lparr>cmd_Process := Some pid, waitCh := Some (length (chans w)),
                 chans := chans w @ [False],
                 watcher := Some \<lparr>pc = AtDefer, deferred = []\<rparr>\<rparr>)"
proof -
  from cmd_Start_launches [OF assms] obtain pid
    where pid: "cmd_Process w = None" "os_StartProcess os = Inr pid"
      "snd (cmd_Start os (wire stdin stdout stderr w)) =
         (wire stdin stdout stderr w)\<lparr>cmd_Process := Some pid\<rparr>"
    by (auto simp: wire_fields)
  with assms show ?thesis
    by (cases "cmd_Start os (wire stdin stdout stderr w)")
       (simp add: Start_def Let_def wire_fields)
qed

lemma recv_never_exits:
  assumes "watcher w = Some g" and "pc g = AtDefer \<or> pc g = AtCmdWait"
    and "\<not> chan_closed w c" and "os_Wait os = None"
  shows "recv_loop os c w = RecvBlocks"
proof -
  have at_wait: "recv_loop os c v = RecvBlocks"
    if "watcher v = Some h" "pc h = AtCmdWait" "\<not> chan_closed v c" for v h
    using that assms(4)
    by (subst recv_loop.simps) (simp add: rendezvous_def watcher_step_def)
  from assms(2) show ?thesis
  proof
    assume "pc g = AtCmdWait"
    then show ?thesis by (intro at_wait [where h = g]) (use assms in simp_all)
  next
    assume d: "pc g = AtDefer"
    let ?w1 = "w\<lparr>watcher := Some (g\<lparr>pc := AtCmdWait, deferred := waitCh w # deferred g\<rparr>)\<rparr>"
    have "recv_loop os c w = recv_loop os c ?w1"
      using assms d by (subst recv_loop.simps) (simp add: rendezvous_def watcher_step_def)
    also have "\<dots> = RecvBlocks"
      by (rule at_wait [where h = "g\<lparr>pc := AtCmdWait, deferred := waitCh w # deferred g\<rparr>"])
         (use assms in \<open>simp_all add: chan_closed_def\<close>)
    finally show ?thesis .
  qed
qed

lemma Run_launch_fails:
  assumes "fst (cmd_Start os (wire stdin stdout stderr w)) = Some err"
  shows "Run os stdin stdout stderr w =
           Returned \<lparr>ExitCode = 0, Error = Some err\<rparr> (wire stdin stdout stderr w)"
  by (simp add: Run_def Start_fails [OF assms])

lemma Run_launches:
  assumes "fst (cmd_Start os (wire stdin stdout stderr w)) = None"
  shows "snd (fst (Start os stdin stdout stderr w)) = None"
    and "Run os stdin stdout stderr w = Wait os (snd (Start os stdin stdout stderr w))"
    and "os_Wait os = Some r \<Longrightarrow> value_of (Run os stdin stdout stderr w) = Some (published r)"
    and "os_Wait os = None \<Longrightarrow> Run os stdin stdout stderr w = Blocks"
proof -
  from Start_launches [OF assms] obtain pid w1
    where s: "Start os stdin stdout stderr w = ((Some (length (chans w)), None), w1)"
      and w1: "w1 = (wire stdin stdout stderr w)
                \<lparr>cmd_Process := Some pid, waitCh := Some (length (chans w)),
                 chans := chans w @ [False],
                 watcher := Some \<lparr>pc = AtDefer, deferred = []\<rparr>\<rparr>"
    by blast
  show "snd (fst (Start os stdin stdout stderr w)) = None" using s by simp
  show run: "Run os stdin stdout stderr w = Wait os (snd (Start os stdin stdout stderr w))"
    using s by (simp add: Run_def)
  have st: "watcher w1 = Some \<lparr>pc = AtDefer, deferred = []\<rparr>"
    "waitCh w1 = Some (length (chans w))" "\<not> chan_closed w1 (length (chans w))"
    by (simp_all add: w1 chan_closed_def wire_fields)
  show "value_of (Run os stdin stdout stderr w) = Some (published r)" if "os_Wait os = Some r"
    using Wait_at_start(1) [OF st(1) _ st(2) st(3) that] run s by simp
  show "Run os stdin stdout stderr w = Blocks" if "os_Wait os = None"
    using recv_never_exits [OF st(1) _ st(3) that] run s st(2) by (simp add: Wait_def)
qed

subsection \<open>The environment\<close>

lemma AddEnvironments_env:
  "cmd_Env (AddEnvironments os env w) =
     Some ((case cmd_Env w of None \<Rightarrow> os_Environ os | Some base \<Rightarrow> base) @ env)"
  by (cases "cmd_Env w") (simp_all add: AddEnvironments_def)

lemma AddEnvironments_foldl:
  "cmd_Env w = Some base \<Longrightarrow>
     cmd_Env (foldl (\<lambda>app env. AddEnvironments os env app) w envs) = Some (base @ concat envs)"
proof (induction envs arbitrary: w base)
  case Nil
  then show ?case by simp
next
  case (Cons env envs)
  have "cmd_Env (AddEnvironments os env w) = Some (base @ env)"
    using Cons.prems by (simp add: AddEnvironments_env)
  from Cons.IH [OF this] show ?case by simp
qed

subsection \<open>\<open>CheckIsInstalled\<close>\<close>





subsection \<open>\<open>Kill\<close>\<close>






subsection \<open>The order of the watcher\<close>





section \<open>The claims\<close>

text \<open>
  Claim C1, as the code has it. When \<open>cmd.Wait()\<close> returns an error, the watcher that
  has not yet passed \<open>cmd.Wait()\<close> publishes, to the receiver in \<open>Wait\<close> and to the
  cached result, one of two pairs. If the error is an exit error that holds a wait status,
  the pair is the \<open>ExitStatus()\<close> of that status with no error: the exit code, from 0 to
  255, when the process exited, and \<open>-1\<close> when it did not (a process ended by a
  signal). For every other error, the pair is exit code 0 with the error as it is.
\<close>

theorem asyncWait_publishes:
  assumes "watcher w = Some g" and "pc g = AtDefer \<or> pc g = AtCmdWait"
    and "waitCh w = Some c" and "\<not> chan_closed w c" and "os_Wait os = Some (Some err)"
  shows "(\<forall>stat. err = ExitError (SysWaitStatus stat) \<longrightarrow>
            value_of (Wait os w) = Some \<lparr>ExitCode = ExitStatus stat, Error = None\<rparr> \<and>
            map_option exitCodeOrError (world_of (Wait os w)) =
              Some (Some \<lparr>ExitCode = ExitStatus stat, Error = None\<rparr>) \<and>
            (Exited stat \<longrightarrow> 0 \<le> ExitStatus stat \<and> ExitStatus stat \<le> 255) \<and>
            (\<not> Exited stat \<longrightarrow> ExitStatus stat = - 1)) \<and>
         ((\<forall>stat. err \<noteq> ExitError (SysWaitStatus stat)) \<longrightarrow>
            value_of (Wait os w) = Some \<lparr>ExitCode = 0, Error = Some err\<rparr> \<and>
            map_option exitCodeOrError (world_of (Wait os w)) =
              Some (Some \<lparr>ExitCode = 0, Error = Some err\<rparr>))"
proof -
  note pub = Wait_at_start [OF assms]
  have a: "published (Some (ExitError (SysWaitStatus stat))) =
      \<lparr>ExitCode = ExitStatus stat, Error = None\<rparr>" for stat
    by (simp add: published_def)
  have b: "published (Some err) = \<lparr>ExitCode = 0, Error = Some err\<rparr>"
    if "\<forall>stat. err \<noteq> ExitError (SysWaitStatus stat)"
    using that by (simp add: published_def asyncWait_result_other)
  show ?thesis
    using pub a b by (auto simp: ExitStatus_range ExitStatus_not_exited)
qed

theorem asyncWait_publishes_witness:
  "value_of (Wait os_exit7 (snd (Start os_exit7 None None None (NewApp os_exit7 ''sh'' [])))) =
     Some \<lparr>ExitCode = 7, Error = None\<rparr>"
proof -
  let ?w = "snd (Start os_exit7 None None None (NewApp os_exit7 ''sh'' []))"
  have h: "watcher ?w = Some \<lparr>pc = AtDefer, deferred = []\<rparr>" "waitCh ?w = Some 0"
    "\<not> chan_closed ?w 0" "os_Wait os_exit7 = Some (Some (ExitError (SysWaitStatus 0x700)))"
    by (simp_all add: Start_def cmd_Start_def wire_def NewApp_def os_exit7_def os_example_def
        chan_closed_def)
  have e: "ExitStatus 0x700 = 7" by (simp add: ExitStatus_def Exited_def)
  from asyncWait_publishes [OF h(1) _ h(2) h(3) h(4)] e show ?thesis by simp
qed

text \<open>
  Claim C1 as stated fails for a process ended by a signal: \<open>cmd.Wait()\<close> reports it as
  an exit error whose wait status holds the signal (9 for \<open>SIGKILL\<close>), both type
  assertions succeed, and the watcher publishes \<open>-1\<close> with no error instead of
  keeping the error with exit code 0.
\<close>

theorem asyncWait_signal_counterexample:
  "Signaled 9 \<and> \<not> Exited 9 \<and>
   os_Wait os_killed = Some (Some (ExitError (SysWaitStatus 9))) \<and>
   value_of (Run os_killed None None None (NewApp os_killed ''sleep'' [''60''])) =
     Some \<lparr>ExitCode = - 1, Error = None\<rparr> \<and>
   value_of (Run os_killed None None None (NewApp os_killed ''sleep'' [''60''])) \<noteq>
     Some \<lparr>ExitCode = 0, Error = Some (ExitError (SysWaitStatus 9))\<rparr>"
  by (simp add: Signaled_def Run_def Start_def cmd_Start_def wire_def NewApp_def os_killed_def
      os_example_def Wait_def recv_at_Defer chan_closed_def published_def ExitStatus_def Exited_def)

text \<open>
  Claim C3. A call of \<open>Wait\<close> that finds the channel closed, or that comes in a history
  of the program after the one value has been received, returns the result whose error is
  \<open>Exited already\<close> with exit code 0; it neither panics nor blocks. On a closed channel
  it changes nothing.
\<close>

theorem Wait_already_exited:
  assumes "waitCh w = Some c"
    and "chan_closed w c \<or>
         (\<exists>acts name args st. exec os acts (NewApp os name args) = Some w \<and>
            EvSend c st \<in> set (trace w))"
  shows "\<exists>w'. Wait os w =
            Returned \<lparr>ExitCode = 0, Error = Some (ErrorString ''Exited already'')\<rparr> w' \<and>
            chan_closed w' c \<and> (chan_closed w c \<longrightarrow> w' = w)"
proof (cases "chan_closed w c")
  case True
  with assms(1) show ?thesis by (auto simp: Wait_closed already_exited_def)
next
  case False
  with assms(2) obtain acts name args st
    where reach: "exec os acts (NewApp os name args) = Some w"
      and sent: "EvSend c st \<in> set (trace w)" by blast
  from reach have "watcher_inv os w" by (rule inv_exec [OF inv_NewApp])
  from after_send [OF this sent] assms(1) False obtain g
    where g: "watcher w = Some g" "pc g = AtReturn" "deferred g = [Some 0]" "chans w = [False]"
      and c: "c = 0"
    by (auto simp: chan_closed_def)
  from g c assms(1) have "Wait os w = Returned already_exited
           (log (EvClose c) (w\<lparr>chans := (chans w)[c := True]\<rparr>)
              \<lparr>watcher := Some (g\<lparr>pc := AtReturn, deferred := []\<rparr>)\<rparr>)"
    by (intro Wait_close_pending) simp_all
  with g c False show ?thesis
    by (simp add: already_exited_def chan_closed_def log_def)
qed

theorem Wait_already_exited_witness:
  "\<exists>w'. Wait os_exit7 (the (exec os_exit7 [ActRun None None None] (NewApp os_exit7 ''sh'' []))) =
      Returned \<lparr>ExitCode = 0, Error = Some (ErrorString ''Exited already'')\<rparr> w' \<and>
      chan_closed w' 0"
proof -
  let ?w = "the (exec os_exit7 [ActRun None None None] (NewApp os_exit7 ''sh'' []))"
  have ch: "waitCh ?w = Some 0" by code_simp
  have reach: "exec os_exit7 [ActRun None None None] (NewApp os_exit7 ''sh'' []) = Some ?w"
    by code_simp
  have sent: "EvSend 0 \<lparr>ExitCode = 7, Error = None\<rparr> \<in> set (trace ?w)" by code_simp
  from reach sent have "chan_closed ?w 0 \<or>
      (\<exists>acts name args st. exec os_exit7 acts (NewApp os_exit7 name args) = Some ?w \<and>
            EvSend 0 st \<in> set (trace ?w))" by blast
  from Wait_already_exited [OF ch this] show ?thesis by blast
qed





text \<open>
  Claim C5. When \<open>cmd.Start()\<close> fails, \<open>Start\<close> returns the \<open>nil\<close> channel and
  that error, and the state is the one with the streams wired: channel, channels made,
  watcher, process, cached result and events are as before. When it succeeds, \<open>Start\<close>
  returns with no error the one channel it has made, which is new and open, and has
  spawned the watcher at its first statement.
\<close>

theorem Start_launch_or_error:
  "(\<forall>err. fst (cmd_Start os (wire stdin stdout stderr w)) = Some err \<longrightarrow>
      Start os stdin stdout stderr w = ((None, Some err), wire stdin stdout stderr w) \<and>
      waitCh (wire stdin stdout stderr w) = waitCh w \<and>
      chans (wire stdin stdout stderr w) = chans w \<and>
      watcher (wire stdin stdout stderr w) = watcher w \<and>
      cmd_Process (wire stdin stdout stderr w) = cmd_Process w \<and>
      exitCodeOrError (wire stdin stdout stderr w) = exitCodeOrError w \<and>
      trace (wire stdin stdout stderr w) = trace w) \<and>
   (fst (cmd_Start os (wire stdin stdout stderr w)) = None \<longrightarrow>
      (\<exists>pid. os_StartProcess os = Inr pid \<and>
         Start os stdin stdout stderr w =
           ((Some (length (chans w)), None),
            (wire stdin stdout stderr w)
              \<lparr>cmd_Process := Some pid, waitCh := Some (length (chans w)),
               chans := chans w @ [False],
               watcher := Some \<lparr>pc = AtDefer, deferred = []\<rparr>\<rparr>)))"
  using Start_fails [of os stdin stdout stderr w] Start_launches [of os stdin stdout stderr w]
  by (auto simp: wire_fields)

theorem Start_launch_or_error_witness:
  "Start os_nolaunch None (Some 1) None (NewApp os_nolaunch ''nosuch'' []) =
     ((None, Some (ErrorString ''exec: no such file'')),
      wire None (Some 1) None (NewApp os_nolaunch ''nosuch'' [])) \<and>
   (\<exists>pid. Start os_exit7 None (Some 1) None (NewApp os_exit7 ''sh'' []) =
      ((Some 0, None),
       (wire None (Some 1) None (NewApp os_exit7 ''sh'' []))
         \<lparr>cmd_Process := Some pid, waitCh := Some 0, chans := [False],
          watcher := Some \<lparr>pc = AtDefer, deferred = []\<rparr>\<rparr>))"
proof -
  have a: "fst (cmd_Start os_nolaunch (wire None (Some 1) None (NewApp os_nolaunch ''nosuch'' [])))
      = Some (ErrorString ''exec: no such file'')"
    by (simp add: cmd_Start_def wire_def NewApp_def os_nolaunch_def os_example_def)
  have b: "fst (cmd_Start os_exit7 (wire None (Some 1) None (NewApp os_exit7 ''sh'' []))) = None"
    by (simp add: cmd_Start_def wire_def NewApp_def os_exit7_def os_example_def)
  have c: "chans (NewApp os_exit7 ''sh'' []) = []" by (simp add: NewApp_def)
  from Start_launch_or_error [of os_nolaunch None "Some 1" None "NewApp os_nolaunch ''nosuch'' []"]
    Start_launch_or_error [of os_exit7 None "Some 1" None "NewApp os_exit7 ''sh'' []"] a b c
  show ?thesis by auto
qed

text \<open>
  Claim C6. When \<open>Start\<close> fails, \<open>Run\<close> returns exit code 0 with the error of
  \<open>Start\<close>, in the state \<open>Start\<close> left, which has no channel or watcher more than
  before. When \<open>Start\<close> succeeds, \<open>Run\<close> is \<open>Wait\<close> in the state \<open>Start\<close>
  left: if the process ends, \<open>Run\<close> returns what the watcher publishes.
\<close>

theorem Run_is_Start_then_Wait:
  "(\<forall>err. snd (fst (Start os stdin stdout stderr w)) = Some err \<longrightarrow>
      Run os stdin stdout stderr w =
        Returned \<lparr>ExitCode = 0, Error = Some err\<rparr> (snd (Start os stdin stdout stderr w)) \<and>
      snd (Start os stdin stdout stderr w) = wire stdin stdout stderr w) \<and>
   (snd (fst (Start os stdin stdout stderr w)) = None \<longrightarrow>
      Run os stdin stdout stderr w = Wait os (snd (Start os stdin stdout stderr w)) \<and>
      (\<forall>r. os_Wait os = Some r \<longrightarrow>
         value_of (Run os stdin stdout stderr w) = Some (published r)))"
proof (cases "fst (cmd_Start os (wire stdin stdout stderr w))")
  case None
  from Run_launches [OF None] show ?thesis by simp
next
  case (Some err)
  from Start_fails [OF Some] Run_launch_fails [OF Some] show ?thesis by simp
qed

theorem Run_is_Start_then_Wait_witness:
  "Run os_nolaunch None None None (NewApp os_nolaunch ''nosuch'' []) =
     Returned \<lparr>ExitCode = 0, Error = Some (ErrorString ''exec: no such file'')\<rparr>
       (NewApp os_nolaunch ''nosuch'' []) \<and>
   value_of (Run os_exit7 None None None (NewApp os_exit7 ''sh'' [])) =
     Some \<lparr>ExitCode = 7, Error = None\<rparr>"
proof -
  have a: "Start os_nolaunch None None None (NewApp os_nolaunch ''nosuch'' []) =
      ((None, Some (ErrorString ''exec: no such file'')), NewApp os_nolaunch ''nosuch'' [])"
    by (simp add: Start_def cmd_Start_def wire_def NewApp_def os_nolaunch_def os_example_def)
  have b: "snd (fst (Start os_exit7 None None None (NewApp os_exit7 ''sh'' []))) = None"
    by (simp add: Start_def cmd_Start_def wire_def NewApp_def os_exit7_def os_example_def)
  have c: "os_Wait os_exit7 = Some (Some (ExitError (SysWaitStatus 0x700)))"
    by (simp add: os_exit7_def os_example_def)
  have d: "published (Some (ExitError (SysWaitStatus 0x700))) = \<lparr>ExitCode = 7, Error = None\<rparr>"
    by (simp add: published_def ExitStatus_def Exited_def)
  from Run_is_Start_then_Wait [of os_nolaunch None None None "NewApp os_nolaunch ''nosuch'' []"] a
  have fails: "Run os_nolaunch None None None (NewApp os_nolaunch ''nosuch'' []) =
     Returned \<lparr>ExitCode = 0, Error = Some (ErrorString ''exec: no such file'')\<rparr>
       (NewApp os_nolaunch ''nosuch'' [])" by simp
  from Run_is_Start_then_Wait [of os_exit7 None None None "NewApp os_exit7 ''sh'' []"] b c
  have "value_of (Run os_exit7 None None None (NewApp os_exit7 ''sh'' [])) =
     Some (published (Some (ExitError (SysWaitStatus 0x700))))" by blast
  with fails d show ?thesis by simp
qed

text \<open>
  Claim C7. After one or more calls of \<open>AddEnvironments\<close> the environment is the base,
  followed by the entries of the first call, followed by the entries of the later calls in
  order; the base is the environment set before, or, if none was set, the environment of
  the current process as the first call reads it. The second call does not read the
  environment of the process again.
\<close>

theorem AddEnvironments_appends:
  "cmd_Env (foldl (\<lambda>app env. AddEnvironments os env app) w (env # envs)) =
     Some ((case cmd_Env w of None \<Rightarrow> os_Environ os | Some base \<Rightarrow> base) @ env @ concat envs) \<and>
   (cmd_Env w = None \<longrightarrow>
      cmd_Env (AddEnvironments os env1 w) = Some (os_Environ os @ env1) \<and>
      cmd_Env (AddEnvironments os' env2 (AddEnvironments os env1 w)) =
        Some (os_Environ os @ env1 @ env2))"
proof -
  have "cmd_Env (foldl (\<lambda>app env. AddEnvironments os env app) (AddEnvironments os env w) envs) =
      Some (((case cmd_Env w of None \<Rightarrow> os_Environ os | Some base \<Rightarrow> base) @ env) @ concat envs)"
    by (rule AddEnvironments_foldl) (rule AddEnvironments_env)
  then show ?thesis by (simp add: AddEnvironments_env)
qed

theorem AddEnvironments_appends_witness:
  "cmd_Env (AddEnvironments os_exit7 [''B=2'', ''C=3'']
      (AddEnvironments os_exit7 [''A=1''] (NewApp os_exit7 ''sh'' []))) =
     Some [''HOME=/root'', ''A=1'', ''B=2'', ''C=3'']"
proof -
  have a: "cmd_Env (NewApp os_exit7 ''sh'' []) = None" by (simp add: NewApp_def)
  have b: "os_Environ os_exit7 = [''HOME=/root'']" by (simp add: os_exit7_def os_example_def)
  from AddEnvironments_appends [of os_exit7 "NewApp os_exit7 ''sh'' []" "[]" "[]" "[''A=1'']"
      os_exit7 "[''B=2'', ''C=3'']"] a b
  show ?thesis by simp
qed



text \<open>
  Claim C9. In every history of the program, as long as the watcher has not stored a
  result, the \<open>atomic.Value\<close> is empty, and the method \<open>ExitCodeOrError()\<close> panics:
  it returns neither a result nor an error.
\<close>

theorem ExitCodeOrError_before_store_panics:
  assumes "exec os acts (NewApp os name args) = Some w"
    and "\<forall>st. EvStore st \<notin> set (trace w)"
  shows "exitCodeOrError w = None \<and> App_ExitCodeOrError w = Panics"
proof -
  from assms(1) have "watcher_inv os w" by (rule inv_exec [OF inv_NewApp])
  from not_stored [OF this assms(2)] show ?thesis by (simp add: App_ExitCodeOrError_def)
qed

theorem ExitCodeOrError_before_store_panics_witness:
  "App_ExitCodeOrError
     (the (exec os_exit7 [ActStart None None None, ActWatcher, ActWatcher]
        (NewApp os_exit7 ''sh'' []))) = Panics"
proof -
  let ?acts = "[ActStart None None None, ActWatcher, ActWatcher]"
  let ?w = "the (exec os_exit7 ?acts (NewApp os_exit7 ''sh'' []))"
  have reach: "exec os_exit7 ?acts (NewApp os_exit7 ''sh'' []) = Some ?w" by code_simp
  have tr: "trace ?w = []" by code_simp
  then have "\<forall>st. EvStore st \<notin> set (trace ?w)" by simp
  from ExitCodeOrError_before_store_panics [OF reach this] show ?thesis by simp
qed

text \<open>
  Claim C10. In every history of the program, the process handle is \<open>nil\<close> exactly when
  no \<open>Start\<close> has succeeded (no watcher was spawned), and \<open>Kill\<close> on such a
  controller panics, on either kind of platform, instead of returning an error.
\<close>

theorem Kill_without_process_panics:
  assumes "exec os acts (NewApp os name args) = Some w"
  shows "(cmd_Process w = None \<longleftrightarrow> watcher w = None) \<and>
         (cmd_Process w = None \<longrightarrow> Kill os w = Panics)"
proof -
  from assms have "watcher_inv os w" by (rule inv_exec [OF inv_NewApp])
  then show ?thesis by (simp add: no_process Kill_nil)
qed

theorem Kill_without_process_panics_witness:
  "Kill os_nolaunch
     (the (exec os_nolaunch [ActAddEnvironments [''A=1''], ActStart None None None]
        (NewApp os_nolaunch ''nosuch'' []))) = Panics"
proof -
  let ?acts = "[ActAddEnvironments [''A=1''], ActStart None None None]"
  let ?w = "the (exec os_nolaunch ?acts (NewApp os_nolaunch ''nosuch'' []))"
  have reach: "exec os_nolaunch ?acts (NewApp os_nolaunch ''nosuch'' []) = Some ?w" by code_simp
  have np: "cmd_Process ?w = None" by code_simp
  from Kill_without_process_panics [OF reach] np show ?thesis by simp
qed

end
